theory Spec2Isabelle
  imports Complex_Main
begin

section \<open>Values thrown by the JavaScript code\<close>

text \<open>
  The error classes of \<^verbatim>\<open>clients.ts\<close> (\<^verbatim>\<open>CapsuleInitializationError\<close>,
  \<^verbatim>\<open>WalletOperationError\<close>, \<^verbatim>\<open>SigningError\<close>) and the two classes that
  \<^verbatim>\<open>server.ts\<close> declares again under the same names. The two modules do not share
  the class objects, so an \<^verbatim>\<open>instanceof\<close> test of \<^verbatim>\<open>server.ts\<close> asks for the
  \<open>Server...\<close> classes.
\<close>

datatype errclass =
    PlainError
  | TypeError
  | CapsuleInitializationError
  | WalletOperationError
  | SigningError
  | ServerCapsuleInitializationError
  | ServerWalletOperationError

text \<open>
  A thrown value: \<^verbatim>\<open>undefined\<close>/\<^verbatim>\<open>null\<close>, some other value that is not an
  \<^verbatim>\<open>Error\<close>, or an error object with its class, its message and the optional
  \<^verbatim>\<open>originalError\<close> of the classes of \<^verbatim>\<open>clients.ts\<close>.
\<close>

datatype thrown =
    JsUndefined
  | NonError string
  | Exception errclass string "thrown option"

section \<open>The process and the world around it\<close>

datatype idtype = EMAIL | PHONE

text \<open>
  Every call that leaves the process is recorded on a timeline, together with every
  timer the code waits for. The world \<open>'w\<close> is the state of the remote services.
\<close>

datatype call =
    NewCapsule
  | GetWallets
  | HasPregenWallet string idtype
  | CreateWalletPreGen string idtype
  | GetUserShare
  | SetUserShare string
  | StoreUserShare string string idtype
  | GetUserShareFromDatabase string
  | SignMessage string string
  | Work string

datatype event = Call call | Sleep int

record 'w proc =
  world :: 'w
  clock :: int
  timeline :: "event list"

type_synonym ('w, 'a) async = "'w proc \<Rightarrow> (thrown + 'a) \<times> 'w proc"

text \<open>A remote call \<open>c\<close> whose effect on the world and whose outcome are given by \<open>f\<close>.\<close>

definition remote :: "call \<Rightarrow> ('w \<Rightarrow> (thrown + 'a) \<times> 'w) \<Rightarrow> ('w, 'a) async" where
  "remote c f s =
     (case f (world s) of
        (r, w') \<Rightarrow> (r, s\<lparr>world := w', timeline := timeline s @ [Call c]\<rparr>))"

text \<open>
  \<^verbatim>\<open>const delay = (ms) => new Promise((resolve) => setTimeout(resolve, ms))\<close>:
  the timer is recorded, and the clock moves on by its duration (a negative duration
  fires at once).
\<close>

definition delay :: "int \<Rightarrow> 'w proc \<Rightarrow> 'w proc" where
  "delay ms s = s\<lparr>clock := clock s + max 0 ms, timeline := timeline s @ [Sleep ms]\<rparr>"

text \<open>The durations of the timers of a timeline, and the calls of a timeline.\<close>

fun waits :: "event list \<Rightarrow> int list" where
  "waits [] = []"
| "waits (Sleep ms # es) = ms # waits es"
| "waits (Call c # es) = waits es"

fun calls :: "event list \<Rightarrow> call list" where
  "calls [] = []"
| "calls (Sleep ms # es) = calls es"
| "calls (Call c # es) = c # calls es"

text \<open>The events a computation added to the timeline it started with.\<close>

definition added :: "'w proc \<Rightarrow> 'w proc \<Rightarrow> event list" where
  "added s s' = drop (length (timeline s)) (timeline s')"

section \<open>clients.ts: the generic retry helper\<close>



text \<open>
  \<^verbatim>\<open>retry(operation, maxRetries, retryDelay)\<close>. The loop
  \<^verbatim>\<open>for (let attempt = 1; attempt <= maxRetries; attempt++)\<close> is the recursion on
  \<open>attempt\<close>; \<open>lastError\<close> starts as \<^verbatim>\<open>undefined\<close>. A successful
  \<^verbatim>\<open>await operation()\<close> returns; a failure at \<^verbatim>\<open>attempt === maxRetries\<close> breaks
  out of the loop and \<^verbatim>\<open>throw lastError\<close> throws the error just caught; any other
  failure waits \<^verbatim>\<open>delay(retryDelay)\<close> and goes round again. The
  \<^verbatim>\<open>console.warn\<close> of the loop is not modelled.
\<close>

function retry_from ::
  "int \<Rightarrow> thrown \<Rightarrow> ('w, 'a) async \<Rightarrow> int \<Rightarrow> int \<Rightarrow> ('w, 'a) async" where
  "retry_from attempt lastError operation maxRetries retryDelay s =
     (if attempt \<le> maxRetries then
        (case operation s of
           (Inr v, s') \<Rightarrow> (Inr v, s')
         | (Inl error, s') \<Rightarrow>
             if attempt = maxRetries then (Inl error, s')
             else retry_from (attempt + 1) error operation maxRetries retryDelay
                    (delay retryDelay s'))
      else (Inl lastError, s))"
  by pat_completeness auto
termination
  by (relation "measure (\<lambda>(attempt, _, _, maxRetries, _, _). nat (maxRetries + 1 - attempt))")
     auto

declare retry_from.simps [simp del]

definition retry :: "('w, 'a) async \<Rightarrow> int \<Rightarrow> int \<Rightarrow> ('w, 'a) async" where
  "retry operation maxRetries retryDelay =
     retry_from 1 JsUndefined operation maxRetries retryDelay"


subsection \<open>Work functions, seen by their successive outcomes\<close>

text \<open>
  The world after \<open>n\<close> invocations of a work function \<open>f\<close>, and the outcome of its
  invocation number \<open>n\<close> (counted from 0).
\<close>

fun world_after :: "('w \<Rightarrow> (thrown + 'a) \<times> 'w) \<Rightarrow> nat \<Rightarrow> 'w \<Rightarrow> 'w" where
  "world_after f 0 w = w"
| "world_after f (Suc n) w = world_after f n (snd (f w))"

definition outcome :: "('w \<Rightarrow> (thrown + 'a) \<times> 'w) \<Rightarrow> nat \<Rightarrow> 'w \<Rightarrow> thrown + 'a" where
  "outcome f n w = fst (f (world_after f n w))"

text \<open>The state after \<open>j\<close> failed attempts, each followed by its wait.\<close>

definition rounds :: "call \<Rightarrow> ('w \<Rightarrow> (thrown + 'a) \<times> 'w) \<Rightarrow> int \<Rightarrow> nat \<Rightarrow> 'w proc \<Rightarrow> 'w proc" where
  "rounds c f d j s =
     s\<lparr>world := world_after f j (world s),
       clock := clock s + int j * max 0 d,
       timeline := timeline s @ concat (replicate j [Call c, Sleep d])\<rparr>"

text \<open>
  A scripted work function on a world that counts the invocations: the first \<open>k\<close>
  invocations fail, each with an error of its own, and the later ones return \<open>v\<close>.
\<close>

definition flaky :: "nat \<Rightarrow> 'a \<Rightarrow> nat \<Rightarrow> (thrown + 'a) \<times> nat" where
  "flaky k v n =
     (if n < k then Inl (Exception PlainError (''failure '' @ replicate n CHR ''I'') None) else Inr v,
      Suc n)"

definition start :: "'w \<Rightarrow> 'w proc" where
  "start w = \<lparr>world = w, clock = 0, timeline = []\<rparr>"

section \<open>JavaScript strings and numbers\<close>

text \<open>
  A string is a list of code units; the model has the code units below 256 (Latin-1).
  The white space of \<^verbatim>\<open>\s\<close> and of \<^verbatim>\<open>trim\<close> in that range: tab, line feed,
  vertical tab, form feed, carriage return, space and the no-break space.
\<close>

definition isWhiteSpace :: "char \<Rightarrow> bool" where
  "isWhiteSpace c =
     (c \<in> set [CHR 0x09, CHR 0x0A, CHR 0x0B, CHR 0x0C, CHR 0x0D, CHR 0x20, CHR 0xA0])"

definition isDigit :: "char \<Rightarrow> bool" where
  "isDigit c = (c \<in> set ''0123456789'')"

text \<open>\<^verbatim>\<open>String.prototype.trim\<close>.\<close>

definition trim :: "string \<Rightarrow> string" where
  "trim s = rev (dropWhile isWhiteSpace (rev (dropWhile isWhiteSpace s)))"

text \<open>
  \<^verbatim>\<open>String.prototype.toLowerCase\<close> on Latin-1: the letters A to Z and the accented
  capitals U+00C0 to U+00DE (the multiplication sign U+00D7 apart) move up by 32.
\<close>

definition toLowerChar :: "char \<Rightarrow> char" where
  "toLowerChar c =
     (let n = (of_char c :: nat)
      in if (65 \<le> n \<and> n \<le> 90) \<or> (192 \<le> n \<and> n \<le> 222 \<and> n \<noteq> 215)
         then char_of (n + 32) else c)"

definition toLowerCase :: "string \<Rightarrow> string" where
  "toLowerCase s = map toLowerChar s"

text \<open>\<^verbatim>\<open>s.slice(-2)\<close> and \<^verbatim>\<open>s.slice(0, -2)\<close>.\<close>

definition slice_last2 :: "string \<Rightarrow> string" where
  "slice_last2 s = drop (length s - 2) s"


text \<open>The value of a hexadecimal digit, of either case.\<close>

definition hexDigitValue :: "char \<Rightarrow> nat option" where
  "hexDigitValue c =
     (if c \<in> set ''0123456789'' then Some (of_char c - 48)
      else if c \<in> set ''abcdef'' then Some (of_char c - 87)
      else if c \<in> set ''ABCDEF'' then Some (of_char c - 55)
      else None)"

definition isHexDigit :: "char \<Rightarrow> bool" where
  "isHexDigit c = (hexDigitValue c \<noteq> None)"







datatype jsval = JUndefined | JNull | JBoolean bool | JNumber int | JString string | JObject

text \<open>An optional string field: absent, or a string. The empty string is falsy.\<close>

fun truthy :: "string option \<Rightarrow> bool" where
  "truthy None = False"
| "truthy (Some s) = (s \<noteq> [])"

fun text_of :: "string option \<Rightarrow> string" where
  "text_of None = []"
| "text_of (Some s) = s"

text \<open>\<^verbatim>\<open>a || b\<close> on optional strings.\<close>

definition or_else :: "string option \<Rightarrow> string option \<Rightarrow> string option" where
  "or_else a b = (if truthy a then a else b)"

subsection \<open>The regular expressions of the validators\<close>

text \<open>
  Both regular expressions of \<^verbatim>\<open>server.ts\<close> are sequences of character classes, each
  with a repetition count, between \<^verbatim>\<open>^\<close> and \<^verbatim>\<open>$\<close>. An item is a class, the
  least number of repetitions and the greatest one (\<open>None\<close> for no bound).
  \<open>regex_test r s\<close> is \<^verbatim>\<open>r.test(s)\<close>: some split of the whole of \<open>s\<close> gives
  every item a run of characters of its class, of a length within its bounds.
\<close>

type_synonym regex_item = "(char \<Rightarrow> bool) \<times> nat \<times> nat option"

fun regex_test :: "regex_item list \<Rightarrow> string \<Rightarrow> bool" where
  "regex_test [] s = (s = [])"
| "regex_test ((cls, lo, hi) # items) s =
     list_ex (\<lambda>n. list_all cls (take n s) \<and> regex_test items (drop n s))
       [lo ..< Suc (case hi of None \<Rightarrow> length s | Some h \<Rightarrow> min h (length s))]"

text \<open>\<^verbatim>\<open>[^\s@]\<close>, a single character, \<^verbatim>\<open>[1-9]\<close> and \<^verbatim>\<open>\d\<close>.\<close>

definition notSpaceNorAt :: "char \<Rightarrow> bool" where
  "notSpaceNorAt c = (\<not> isWhiteSpace c \<and> c \<noteq> CHR ''@'')"

definition oneToNine :: "char \<Rightarrow> bool" where
  "oneToNine c = (c \<in> set ''123456789'')"

text \<open>\<^verbatim>\<open>/^[^\s@]+@[^\s@]+\.[^\s@]+$/\<close>\<close>

definition emailRegex :: "regex_item list" where
  "emailRegex =
     [(notSpaceNorAt, 1, None), ((=) CHR ''@'', 1, Some 1), (notSpaceNorAt, 1, None),
      ((=) CHR ''.'', 1, Some 1), (notSpaceNorAt, 1, None)]"

text \<open>\<^verbatim>\<open>/^\+[1-9]\d{1,14}$/\<close>\<close>

definition phoneRegex :: "regex_item list" where
  "phoneRegex = [((=) CHR ''+'', 1, Some 1), (oneToNine, 1, Some 1), (isDigit, 1, Some 14)]"

section \<open>server.ts: validation\<close>

definition isValidEmail :: "string \<Rightarrow> bool" where
  "isValidEmail email = regex_test emailRegex email"

definition isValidPhone :: "string \<Rightarrow> bool" where
  "isValidPhone phone = regex_test phoneRegex phone"

text \<open>
  The request body \<^verbatim>\<open>{email?: string, phone?: string}\<close>, the JSON bodies of the
  responses, and a response with its status code.
\<close>

record body =
  email :: "string option"
  phone :: "string option"

text \<open>The field \<^verbatim>\<open>identifier\<close> of a \<^verbatim>\<open>MintResult\<close> is \<open>mintIdentifier\<close> here.\<close>

record MintResult =
  status :: string
  mintIdentifier :: string
  identifierType :: idtype
  walletAddress :: string
  operationHash :: string

record ErrorResponse =
  error :: string
  retryAfter :: "rat option"
  details :: "string option"

datatype payload = ErrorJson ErrorResponse | ResultJson MintResult

datatype response = Response nat payload

definition error_only :: "string \<Rightarrow> ErrorResponse" where
  "error_only msg = \<lparr>error = msg, retryAfter = None, details = None\<rparr>"

text \<open>A middleware either answers the request or hands it on with \<^verbatim>\<open>next()\<close>.\<close>

datatype 'a step = Respond response | Next 'a

text \<open>
  \<^verbatim>\<open>validateRequest\<close>. The fields are the ones destructured from the body at the start;
  the normalised values are written back into the body. With string fields nothing in
  the \<^verbatim>\<open>try\<close> block throws.
\<close>

definition validateRequest :: "body \<Rightarrow> body step" where
  "validateRequest b =
     (if \<not> truthy (email b) \<and> \<not> truthy (phone b)
      then Respond (Response 400 (ErrorJson (error_only ''Either email or phone is required'')))
      else
        (case (if truthy (email b)
               then (if \<not> isValidEmail (text_of (email b))
                     then Respond (Response 400 (ErrorJson (error_only ''Invalid email format'')))
                     else Next (b\<lparr>email := Some (trim (toLowerCase (text_of (email b))))\<rparr>))
               else Next b) of
           Respond r \<Rightarrow> Respond r
         | Next b1 \<Rightarrow>
             (if truthy (phone b)
              then (if \<not> isValidPhone (text_of (phone b))
                    then Respond (Response 400 (ErrorJson (error_only
                      ''Invalid phone format. Use international format (e.g. +5511999999999)'')))
                    else Next (b1\<lparr>phone := Some (trim (text_of (phone b)))\<rparr>))
              else Next b1)))"

section \<open>server.ts: the circuit breaker\<close>

text \<open>The configuration read from the environment, each with its default.\<close>

record config =
  CACHE_TTL :: int
  CIRCUIT_BREAKER_THRESHOLD :: int
  CIRCUIT_BREAKER_RESET_TIME :: int
  SERVER_MAX_RETRIES :: int
  INITIAL_RETRY_DELAY :: int
  NODE_ENV_development :: bool

definition default_config :: config where
  "default_config =
     \<lparr>CACHE_TTL = 3600, CIRCUIT_BREAKER_THRESHOLD = 10, CIRCUIT_BREAKER_RESET_TIME = 300000,
      SERVER_MAX_RETRIES = 3, INITIAL_RETRY_DELAY = 1000, NODE_ENV_development = False\<rparr>"

text \<open>
  \<^verbatim>\<open>class CircuitBreaker\<close>. \<^verbatim>\<open>Date.now()\<close> is the argument \<open>now\<close> of the methods
  that read the clock.
\<close>

record CircuitBreaker =
  failures :: int
  lastFailure :: int
  isOpen :: bool

definition new_CircuitBreaker :: "int \<Rightarrow> CircuitBreaker" where
  "new_CircuitBreaker now = \<lparr>failures = 0, lastFailure = now, isOpen = False\<rparr>"

definition reset :: "CircuitBreaker \<Rightarrow> CircuitBreaker" where
  "reset b = b\<lparr>failures := 0, isOpen := False\<rparr>"

definition isCircuitOpen :: "config \<Rightarrow> int \<Rightarrow> CircuitBreaker \<Rightarrow> bool \<times> CircuitBreaker" where
  "isCircuitOpen cfg now b =
     (if isOpen b then
        (if now - lastFailure b > CIRCUIT_BREAKER_RESET_TIME cfg then (False, reset b)
         else (True, b))
      else (False, b))"

definition recordFailure :: "config \<Rightarrow> int \<Rightarrow> CircuitBreaker \<Rightarrow> CircuitBreaker" where
  "recordFailure cfg now b =
     (let b1 = b\<lparr>failures := failures b + 1, lastFailure := now\<rparr>
      in if failures b1 > CIRCUIT_BREAKER_THRESHOLD cfg then b1\<lparr>isOpen := True\<rparr> else b1)"

text \<open>A run of \<^verbatim>\<open>recordFailure()\<close> calls, at the given clock readings.\<close>

definition recordFailures :: "config \<Rightarrow> int list \<Rightarrow> CircuitBreaker \<Rightarrow> CircuitBreaker" where
  "recordFailures cfg ts b = foldl (\<lambda>b now. recordFailure cfg now b) b ts"

text \<open>A run of \<^verbatim>\<open>isCircuitOpen()\<close> checks: the answers, and the breaker after them.\<close>

fun checks :: "config \<Rightarrow> int list \<Rightarrow> CircuitBreaker \<Rightarrow> bool list \<times> CircuitBreaker" where
  "checks cfg [] b = ([], b)"
| "checks cfg (now # ts) b =
     (case isCircuitOpen cfg now b of
        (answer, b1) \<Rightarrow> (case checks cfg ts b1 of (answers, b2) \<Rightarrow> (answer # answers, b2)))"

section \<open>Promises\<close>

text \<open>
  \<^verbatim>\<open>await m\<close> followed by the rest of an \<^verbatim>\<open>async\<close> function: a rejection of \<open>m\<close>
  is thrown on, a value is handed to the rest.
\<close>

definition andThen :: "('w, 'a) async \<Rightarrow> ('a \<Rightarrow> ('w, 'b) async) \<Rightarrow> ('w, 'b) async" where
  "andThen m f s = (case m s of (Inl e, s') \<Rightarrow> (Inl e, s') | (Inr v, s') \<Rightarrow> f v s')"

definition resolved :: "'a \<Rightarrow> ('w, 'a) async" where
  "resolved v s = (Inr v, s)"

definition rejected :: "thrown \<Rightarrow> ('w, 'a) async" where
  "rejected e s = (Inl e, s)"


section \<open>The collaborators of clients.ts\<close>

record Wallet =
  wallet_id :: string
  address :: string

text \<open>
  The session object of the custodial wallet service. Each method acts on the world and
  may throw. \<open>wallets\<close> is the property \<^verbatim>\<open>capsule.wallets\<close> (\<open>None\<close> when it is
  missing), in the order of \<^verbatim>\<open>Object.values\<close>; \<open>getUserShare\<close> gives \<open>None\<close> for
  \<^verbatim>\<open>null\<close>; \<open>signMessage\<close> gives the \<^verbatim>\<open>signature\<close> field of its result.
  \<open>createWalletPreGen\<close> is always called with \<^verbatim>\<open>WalletType.EVM\<close>.
\<close>

record 'w Capsule =
  wallets :: "'w \<Rightarrow> Wallet list option"
  hasPregenWallet :: "string \<Rightarrow> idtype \<Rightarrow> 'w \<Rightarrow> (thrown + bool) \<times> 'w"
  createWalletPreGen :: "string \<Rightarrow> idtype \<Rightarrow> 'w \<Rightarrow> (thrown + Wallet) \<times> 'w"
  getUserShare :: "'w \<Rightarrow> (thrown + string option) \<times> 'w"
  setUserShare :: "string \<Rightarrow> 'w \<Rightarrow> (thrown + unit) \<times> 'w"
  getWallets :: "'w \<Rightarrow> (thrown + Wallet list) \<times> 'w"
  signMessage :: "string \<Rightarrow> string \<Rightarrow> 'w \<Rightarrow> (thrown + jsval) \<times> 'w"


section \<open>database.ts\<close>



section \<open>clients.ts: wallet provisioning\<close>



section \<open>clients.ts: signing\<close>






section \<open>server.ts: the response cache\<close>

text \<open>
  The cache is a \<^verbatim>\<open>NodeCache\<close> with \<^verbatim>\<open>stdTTL: CACHE_TTL\<close> and
  \<^verbatim>\<open>useClones: false\<close>: an entry is the stored value itself and the time in
  milliseconds at which it expires (0 for never). \<^verbatim>\<open>get\<close> drops an expired entry and
  answers \<^verbatim>\<open>undefined\<close> for it; \<^verbatim>\<open>set\<close> stamps the entry with the standard
  time to live, given in seconds.
\<close>

type_synonym cache = "string \<rightharpoonup> MintResult \<times> int"

definition cache_get :: "int \<Rightarrow> string \<Rightarrow> cache \<Rightarrow> MintResult option \<times> cache" where
  "cache_get now k c =
     (case c k of
        None \<Rightarrow> (None, c)
      | Some (v, expires) \<Rightarrow>
          if expires \<noteq> 0 \<and> expires < now then (None, c(k := None)) else (Some v, c))"

definition cache_set :: "config \<Rightarrow> int \<Rightarrow> string \<Rightarrow> MintResult \<Rightarrow> cache \<Rightarrow> cache" where
  "cache_set cfg now k v c =
     c(k \<mapsto> (v, if CACHE_TTL cfg = 0 then 0 else now + CACHE_TTL cfg * 1000))"

section \<open>server.ts: the middlewares and the handler\<close>

text \<open>The state of the server process: the process itself, the cache and the breaker.\<close>

record 'w server =
  proc :: "'w proc"
  cache :: cache
  circuitBreaker :: CircuitBreaker

definition cacheMiddleware :: "body \<Rightarrow> 'w server \<Rightarrow> unit step \<times> 'w server" where
  "cacheMiddleware b st =
     (let ident = or_else (email b) (phone b)
      in if \<not> truthy ident then (Next (), st)
         else
           (case cache_get (clock (proc st)) (''mint:'' @ text_of ident) (cache st) of
              (Some cachedResult, c) \<Rightarrow>
                (Respond (Response 200 (ResultJson cachedResult)), st\<lparr>cache := c\<rparr>)
            | (None, c) \<Rightarrow> (Next (), st\<lparr>cache := c\<rparr>)))"

definition circuitBreakerMiddleware :: "config \<Rightarrow> 'w server \<Rightarrow> unit step \<times> 'w server" where
  "circuitBreakerMiddleware cfg st =
     (case isCircuitOpen cfg (clock (proc st)) (circuitBreaker st) of
        (True, cb) \<Rightarrow>
          (Respond (Response 503 (ErrorJson
             \<lparr>error = ''Service temporarily unavailable'',
              retryAfter = Some (of_int (CIRCUIT_BREAKER_RESET_TIME cfg) / 1000),
              details = None\<rparr>)),
           st\<lparr>circuitBreaker := cb\<rparr>)
      | (False, cb) \<Rightarrow> (Next (), st\<lparr>circuitBreaker := cb\<rparr>))"

text \<open>
  What \<^verbatim>\<open>server.ts\<close> imports from \<^verbatim>\<open>clients.js\<close>, \<^verbatim>\<open>viem\<close> and the relay
  client. \<open>'c\<close>, \<open>'v\<close> and \<open>'a\<close> are the session, the signing client and the relay
  client.
\<close>

record ('w, 'c, 'v, 'a) clients =
  clients_initializeCapsule :: "('w, 'c) async"
  clients_createOrGetPregenWallet :: "'c \<Rightarrow> string \<Rightarrow> idtype \<Rightarrow> ('w, Wallet) async"
  clients_createViemClient :: "'c \<Rightarrow> ('w, 'v) async"
  clients_createAlchemyClient :: "'v \<Rightarrow> ('w, 'a) async"
  viem_encodeFunctionData :: "string \<Rightarrow> thrown + string"
  alchemy_sendUserOperation :: "'a \<Rightarrow> string \<Rightarrow> ('w, string) async"

text \<open>The \<^verbatim>\<open>try\<close> block of one attempt of \<^verbatim>\<open>performMint\<close>.\<close>

definition mintAttempt ::
  "('w, 'c, 'v, 'a) clients \<Rightarrow> string \<Rightarrow> idtype \<Rightarrow> ('w, MintResult) async" where
  "mintAttempt cl ident identType =
     andThen (clients_initializeCapsule cl)
       (\<lambda>capsuleClient.
          andThen (clients_createOrGetPregenWallet cl capsuleClient ident identType)
            (\<lambda>wallet.
               if address wallet = [] then
                 rejected (Exception PlainError ''Failed to create or get wallet'' None)
               else
                 andThen (clients_createViemClient cl capsuleClient)
                   (\<lambda>viemClient.
                      andThen (clients_createAlchemyClient cl viemClient)
                        (\<lambda>alchemyClient.
                           case viem_encodeFunctionData cl (address wallet) of
                             Inl e \<Rightarrow> rejected e
                           | Inr mintCallData \<Rightarrow>
                               andThen (alchemy_sendUserOperation cl alchemyClient mintCallData)
                                 (\<lambda>hash.
                                    resolved
                                      \<lparr>status = ''success'', mintIdentifier = ident,
                                       identifierType = identType,
                                       walletAddress = address wallet,
                                       operationHash = hash\<rparr>)))))"

text \<open>\<^verbatim>\<open>error instanceof Error\<close>\<close>

fun isError :: "thrown \<Rightarrow> bool" where
  "isError (Exception _ _ _) = True"
| "isError _ = False"

fun instanceof :: "thrown \<Rightarrow> errclass \<Rightarrow> bool" where
  "instanceof (Exception c _ _) c' = (c = c')"
| "instanceof _ c' = False"

fun message_of :: "thrown \<Rightarrow> string" where
  "message_of (Exception _ msg _) = msg"
| "message_of _ = []"

text \<open>
  The loop of \<^verbatim>\<open>performMint\<close>,
  \<^verbatim>\<open>for (let attempt = 0; attempt < MAX_RETRIES; attempt++)\<close>, with \<open>lastError\<close>
  starting as \<^verbatim>\<open>null\<close>; after a failed attempt that is not the last one it waits
  \<^verbatim>\<open>INITIAL_RETRY_DELAY * Math.pow(2, attempt)\<close>.
\<close>

function performMint_from ::
  "int \<Rightarrow> thrown option \<Rightarrow> ('w, 'c, 'v, 'a) clients \<Rightarrow> config \<Rightarrow> string \<Rightarrow> idtype \<Rightarrow>
   ('w, MintResult) async" where
  "performMint_from attempt lastError cl cfg ident identType s =
     (if attempt < SERVER_MAX_RETRIES cfg then
        (case mintAttempt cl ident identType s of
           (Inr result, s') \<Rightarrow> (Inr result, s')
         | (Inl err, s') \<Rightarrow>
             performMint_from (attempt + 1)
               (Some (if isError err then err else Exception PlainError ''Unknown error'' None))
               cl cfg ident identType
               (if attempt < SERVER_MAX_RETRIES cfg - 1
                then delay (INITIAL_RETRY_DELAY cfg * 2 ^ nat attempt) s' else s'))
      else
        (Inl (case lastError of
                Some e \<Rightarrow> e
              | None \<Rightarrow> Exception PlainError ''Max retries exceeded'' None), s))"
  by pat_completeness auto
termination
  by (relation "measure (\<lambda>(attempt, _, _, cfg, _, _, _). nat (SERVER_MAX_RETRIES cfg - attempt))")
     auto

declare performMint_from.simps [simp del]

definition performMint ::
  "('w, 'c, 'v, 'a) clients \<Rightarrow> config \<Rightarrow> body \<Rightarrow> ('w, MintResult) async" where
  "performMint cl cfg b =
     (let ident = or_else (email b) (phone b)
      in if \<not> truthy ident then rejected (Exception PlainError ''No identifier provided'' None)
         else performMint_from 0 None cl cfg (text_of ident)
                (if truthy (email b) then EMAIL else PHONE))"

text \<open>The answer of \<^verbatim>\<open>mintHandler\<close> to an error of \<^verbatim>\<open>performMint\<close>.\<close>

definition mintFailure :: "config \<Rightarrow> thrown \<Rightarrow> response" where
  "mintFailure cfg err =
     (if instanceof err ServerCapsuleInitializationError then
        Response 503 (ErrorJson
          \<lparr>error = ''Service temporarily unavailable'',
           retryAfter = Some (of_int (CIRCUIT_BREAKER_RESET_TIME cfg) / 1000),
           details = Some ''Failed to initialize Capsule service''\<rparr>)
      else if instanceof err ServerWalletOperationError then
        Response 500 (ErrorJson
          \<lparr>error = ''Wallet operation failed'',
           retryAfter = Some 60,
           details = Some (if NODE_ENV_development cfg then message_of err
                           else ''Wallet operation error'')\<rparr>)
      else
        Response 500 (ErrorJson
          \<lparr>error = ''Failed to mint NFT'',
           retryAfter = Some (of_int (CIRCUIT_BREAKER_RESET_TIME cfg) / 1000),
           details = Some (if NODE_ENV_development cfg
                           then (if isError err then message_of err else ''Unknown error'')
                           else ''Internal server error'')\<rparr>))"

text \<open>
  \<^verbatim>\<open>mintHandler\<close>, for one request served on its own. A failure of the first
  \<^verbatim>\<open>initializeCapsule()\<close> is answered at once and not recorded by the breaker.
\<close>

definition mintHandler ::
  "('w, 'c, 'v, 'a) clients \<Rightarrow> config \<Rightarrow> body \<Rightarrow> 'w server \<Rightarrow> response \<times> 'w server" where
  "mintHandler cl cfg b st =
     (let ident = or_else (email b) (phone b)
      in case clients_initializeCapsule cl (proc st) of
           (Inl e, p1) \<Rightarrow>
             (Response 503 (ErrorJson
                \<lparr>error = ''Service initialization failed'', retryAfter = Some 60,
                 details = Some ''Failed to initialize necessary services''\<rparr>),
              st\<lparr>proc := p1\<rparr>)
         | (Inr capsuleClient, p1) \<Rightarrow>
             (case performMint cl cfg b p1 of
                (Inr result, p2) \<Rightarrow>
                  (Response 200 (ResultJson result),
                   st\<lparr>proc := p2,
                      cache := (if truthy ident
                                then cache_set cfg (clock p2) (''mint:'' @ text_of ident) result
                                       (cache st)
                                else cache st),
                      circuitBreaker := reset (circuitBreaker st)\<rparr>)
              | (Inl err, p2) \<Rightarrow>
                  (mintFailure cfg err,
                   st\<lparr>proc := p2,
                      circuitBreaker := recordFailure cfg (clock p2) (circuitBreaker st)\<rparr>)))"

text \<open>
  The route \<^verbatim>\<open>app.post("/mint", limiter, validateRequest, cacheMiddleware,
  circuitBreakerMiddleware, mintHandler)\<close>. The rate limiter is a library; \<open>admitted\<close>
  says whether it lets the request through.
\<close>

definition postMint ::
  "('w, 'c, 'v, 'a) clients \<Rightarrow> config \<Rightarrow> bool \<Rightarrow> body \<Rightarrow> 'w server \<Rightarrow> response \<times> 'w server" where
  "postMint cl cfg admitted b st =
     (if \<not> admitted then
        (Response 429 (ErrorJson (error_only ''Too many requests, please try again later'')), st)
      else
        (case validateRequest b of
           Respond r \<Rightarrow> (r, st)
         | Next b1 \<Rightarrow>
             (case cacheMiddleware b1 st of
                (Respond r, st1) \<Rightarrow> (r, st1)
              | (Next _, st1) \<Rightarrow>
                  (case circuitBreakerMiddleware cfg st1 of
                     (Respond r, st2) \<Rightarrow> (r, st2)
                   | (Next _, st2) \<Rightarrow> mintHandler cl cfg b1 st2))))"

section \<open>Two sets of collaborators for concrete runs\<close>

text \<open>
  A world that counts the remote calls. With \<open>healthy_clients\<close> every collaborator of
  \<^verbatim>\<open>server.ts\<close> answers; with \<open>unreachable_clients\<close> every one of them fails. The
  encoder of both stands in for the ABI encoding: it refuses, as the library does, what is
  not \<open>0x\<close> followed by 40 hexadecimal digits (the wallet of \<open>healthy_clients\<close> has
  such an address, in lower case, and the relay answers with a 32-byte hash).
\<close>

definition isAddress :: "string \<Rightarrow> bool" where
  "isAddress a = (length a = 42 \<and> take 2 a = ''0x'' \<and> list_all isHexDigit (drop 2 a))"

definition encodeMintTo :: "string \<Rightarrow> thrown + string" where
  "encodeMintTo a =
     (if isAddress a then Inr (''mintTo '' @ a)
      else Inl (Exception PlainError ''Address is invalid'' None))"

definition healthy_clients :: "(nat, unit, unit, unit) clients" where
  "healthy_clients =
     \<lparr>clients_initializeCapsule = remote NewCapsule (\<lambda>w. (Inr (), Suc w)),
      clients_createOrGetPregenWallet =
        (\<lambda>c ident identType. remote (HasPregenWallet ident identType)
           (\<lambda>w. (Inr \<lparr>wallet_id = ''w1'', address = ''0x00000000000000000000000000000000000a11ce''\<rparr>, Suc w))),
      clients_createViemClient = (\<lambda>c. resolved ()),
      clients_createAlchemyClient =
        (\<lambda>v. remote (Work ''createModularAccountAlchemyClient'') (\<lambda>w. (Inr (), Suc w))),
      viem_encodeFunctionData = encodeMintTo,
      alchemy_sendUserOperation =
        (\<lambda>a d. remote (Work ''sendUserOperation'') (\<lambda>w. (Inr ''0xfeedfeedfeedfeedfeedfeedfeedfeedfeedfeedfeedfeedfeedfeedfeedfeed'', Suc w)))\<rparr>"

definition unreachable :: "nat \<Rightarrow> (thrown + 'a) \<times> nat" where
  "unreachable w = (Inl (Exception PlainError ''network unreachable'' None), Suc w)"

definition unreachable_clients :: "(nat, unit, unit, unit) clients" where
  "unreachable_clients =
     \<lparr>clients_initializeCapsule = remote NewCapsule unreachable,
      clients_createOrGetPregenWallet =
        (\<lambda>c ident identType. remote (HasPregenWallet ident identType) unreachable),
      clients_createViemClient = (\<lambda>c. resolved ()),
      clients_createAlchemyClient =
        (\<lambda>v. remote (Work ''createModularAccountAlchemyClient'') unreachable),
      viem_encodeFunctionData = encodeMintTo,
      alchemy_sendUserOperation = (\<lambda>a d. remote (Work ''sendUserOperation'') unreachable)\<rparr>"

definition example_result :: MintResult where
  "example_result =
     \<lparr>status = ''success'', mintIdentifier = ''a@b.co'', identifierType = EMAIL,
      walletAddress = ''0x00000000000000000000000000000000000a11ce'', operationHash = ''0xfeedfeedfeedfeedfeedfeedfeedfeedfeedfeedfeedfeedfeedfeedfeedfeed''\<rparr>"

text \<open>A server at clock reading \<open>now\<close>, with a given cache and breaker and an untouched world.\<close>

definition server_at :: "int \<Rightarrow> cache \<Rightarrow> CircuitBreaker \<Rightarrow> nat server" where
  "server_at now c cb =
     \<lparr>proc = \<lparr>world = 0, clock = now, timeline = []\<rparr>, cache = c, circuitBreaker = cb\<rparr>"




section \<open>Properties of the retry helper\<close>

lemma rounds_0 [simp]: "rounds c f d 0 s = s"
  by (simp add: rounds_def)

lemma world_after_Suc_end: "world_after f (Suc n) w = snd (f (world_after f n w))"
  by (induction n arbitrary: w) simp_all

lemma rounds_Suc:
  "rounds c f d (Suc j) s = delay d (snd (remote c f (rounds c f d j s)))"
  by (simp add: rounds_def delay_def remote_def world_after_Suc_end split: prod.splits
      del: world_after.simps add: replicate_append_same[symmetric] algebra_simps)

lemma retry_from_failures:
  assumes "\<forall>i<k. isl (outcome f i (world s))" and "a + int k \<le> m"
  shows "retry_from a e (remote c f) m d s =
         retry_from (a + int k) (if k = 0 then e else projl (outcome f (k - 1) (world s)))
            (remote c f) m d (rounds c f d k s)"
  using assms
proof (induction k)
  case 0
  then show ?case by simp
next
  case (Suc k)
  have fails: "isl (outcome f k (world s))" using Suc.prems by simp
  then obtain err where err: "outcome f k (world s) = Inl err" by (cases "outcome f k (world s)") auto
  have step: "retry_from (a + int k) e' (remote c f) m d (rounds c f d k s) =
        retry_from (a + int k + 1) err (remote c f) m d (rounds c f d (Suc k) s)" for e'
    using Suc.prems(2) err
    apply (subst retry_from.simps)
    apply (simp add: rounds_Suc del: world_after.simps)
    apply (auto simp add: remote_def outcome_def rounds_def split: prod.splits)
    done
  have "retry_from a e (remote c f) m d s =
        retry_from (a + int k) (if k = 0 then e else projl (outcome f (k - 1) (world s)))
            (remote c f) m d (rounds c f d k s)"
    using Suc.IH Suc.prems by simp
  also have "\<dots> = retry_from (a + int k + 1) err (remote c f) m d (rounds c f d (Suc k) s)"
    by (rule step)
  finally show ?case using err by (simp add: ac_simps)
qed

lemma waits_append [simp]: "waits (xs @ ys) = waits xs @ waits ys"
  by (induction xs rule: waits.induct) simp_all

lemma calls_append [simp]: "calls (xs @ ys) = calls xs @ calls ys"
  by (induction xs rule: calls.induct) simp_all

lemma waits_rounds [simp]: "waits (concat (replicate j [Call c, Sleep d])) = replicate j d"
  by (induction j) simp_all

lemma calls_rounds [simp]: "calls (concat (replicate j [Call c, Sleep d])) = replicate j c"
  by (induction j) simp_all

lemma retry_from_extends_gen:
  assumes "\<And>s. \<exists>es. timeline (snd (operation s)) = timeline s @ es"
  shows "\<exists>es. timeline (snd (retry_from a e operation m d s)) = timeline s @ es"
  using assms
proof (induction a e operation m d s rule: retry_from.induct)
  case (1 attempt lastError operation maxRetries retryDelay s)
  show ?case
  proof (cases "attempt \<le> maxRetries")
    case False
    then show ?thesis by (subst retry_from.simps) simp
  next
    case le: True
    obtain r s' where op: "operation s = (r, s')" by (cases "operation s")
    obtain es where tl: "timeline s' = timeline s @ es"
      using "1.prems"[of s] op by auto
    show ?thesis
    proof (cases r)
      case (Inr v)
      then show ?thesis using le op tl by (subst retry_from.simps) simp
    next
      case (Inl err)
      show ?thesis
      proof (cases "attempt = maxRetries")
        case True
        then show ?thesis using le op tl Inl by (subst retry_from.simps) simp
      next
        case False
        from "1.IH"[OF le op[symmetric] Inl False "1.prems"]
        obtain es' where "timeline (snd (retry_from (attempt + 1) err operation maxRetries retryDelay
                    (delay retryDelay s'))) = timeline (delay retryDelay s') @ es'" by auto
        then show ?thesis using le op tl Inl False
          by (subst retry_from.simps) (simp add: delay_def)
      qed
    qed
  qed
qed

lemma retry_from_extends:
  "\<exists>es. timeline (snd (retry_from a e (remote c f) m d s)) = timeline s @ es"
  by (rule retry_from_extends_gen) (auto simp: remote_def split: prod.splits)

lemma world_after_flaky [simp]: "world_after (flaky k v) i n = n + i"
  by (induction i arbitrary: n) (simp_all add: flaky_def)

lemma outcome_flaky:
  "outcome (flaky k v) i n =
     (if n + i < k then Inl (Exception PlainError (''failure '' @ replicate (n + i) CHR ''I'') None)
      else Inr v)"
  by (simp add: outcome_def flaky_def)

lemma retry_from_succeeds:
  assumes "\<forall>i<k. isl (outcome f i (world s))" and "outcome f k (world s) = Inr v"
    and "a + int k \<le> m"
  shows "retry_from a e (remote c f) m d s =
         (Inr v, s\<lparr>world := world_after f (Suc k) (world s),
                     clock := clock s + int k * max 0 d,
                     timeline := timeline s @ concat (replicate k [Call c, Sleep d]) @ [Call c]\<rparr>)"
proof -
  have "retry_from a e (remote c f) m d s =
        retry_from (a + int k) (if k = 0 then e else projl (outcome f (k - 1) (world s)))
            (remote c f) m d (rounds c f d k s)"
    using assms(1,3) by (rule retry_from_failures)
  also have "\<dots> = (Inr v, snd (remote c f (rounds c f d k s)))"
    using assms(2,3)
    by (subst retry_from.simps)
       (auto simp: remote_def outcome_def rounds_def split: prod.splits)
  finally show ?thesis
    by (simp add: remote_def rounds_def world_after_Suc_end split: prod.splits
        del: world_after.simps)
qed

lemma retry_from_exhausted:
  assumes "\<forall>i<Suc k. isl (outcome f i (world s))" and "outcome f k (world s) = Inl err"
    and "a + int k = m"
  shows "retry_from a e (remote c f) m d s =
         (Inl err, s\<lparr>world := world_after f (Suc k) (world s),
                     clock := clock s + int k * max 0 d,
                     timeline := timeline s @ concat (replicate k [Call c, Sleep d]) @ [Call c]\<rparr>)"
proof -
  have "retry_from a e (remote c f) m d s =
        retry_from (a + int k) (if k = 0 then e else projl (outcome f (k - 1) (world s)))
            (remote c f) m d (rounds c f d k s)"
    using assms(1,3) by (intro retry_from_failures) simp_all
  also have "\<dots> = (Inl err, snd (remote c f (rounds c f d k s)))"
    using assms(2,3)
    by (subst retry_from.simps)
       (auto simp: remote_def outcome_def rounds_def split: prod.splits)
  finally show ?thesis
    by (simp add: remote_def rounds_def world_after_Suc_end split: prod.splits
        del: world_after.simps)
qed


lemma added_append [simp]: "timeline s' = timeline s @ es \<Longrightarrow> added s s' = es"
  by (simp add: added_def)

text \<open>
  Claim C1, as amended. The claim asks for a wait of \<open>baseDelay * 2^i\<close> after the failed
  attempt \<open>i\<close>; the helper waits the same \<open>retryDelay\<close> every time. Whenever the first
  \<open>k\<close> invocations of the work fail and attempts remain after each of them
  (\<open>k < maxRetries\<close>), the first \<open>k\<close> timers the helper starts all last exactly
  \<open>retryDelay\<close>: a constant delay, with no jitter and no growth.
\<close>

theorem retry_waits_retryDelay:
  assumes "\<forall>i<k. isl (outcome f i (world s))" and "int k < maxRetries"
  shows "take k (waits (added s (snd (retry (remote c f) maxRetries retryDelay s)))) =
         replicate k retryDelay"
proof -
  let ?e = "if k = 0 then JsUndefined else projl (outcome f (k - 1) (world s))"
  have "retry (remote c f) maxRetries retryDelay s =
        retry_from (1 + int k) ?e (remote c f) maxRetries retryDelay (rounds c f retryDelay k s)"
    unfolding retry_def using assms by (intro retry_from_failures) simp_all
  moreover obtain es where
    "timeline (snd (retry_from (1 + int k) ?e (remote c f) maxRetries retryDelay
        (rounds c f retryDelay k s))) = timeline (rounds c f retryDelay k s) @ es"
    using retry_from_extends by blast
  ultimately have "timeline (snd (retry (remote c f) maxRetries retryDelay s)) =
     timeline s @ (concat (replicate k [Call c, Sleep retryDelay]) @ es)"
    by (simp add: rounds_def)
  then have "added s (snd (retry (remote c f) maxRetries retryDelay s)) =
     concat (replicate k [Call c, Sleep retryDelay]) @ es"
    by (rule added_append)
  then show ?thesis by simp
qed

theorem retry_waits_retryDelay_witness:
  "take 2 (waits (added (start 0) (snd (retry (remote (Work ''w'') (flaky 2 True)) 3 1000 (start 0))))) =
   [1000, 1000]"
  using retry_waits_retryDelay [of 2 "flaky 2 True" "start 0" 3 "Work ''w''" 1000]
  by (simp add: outcome_flaky start_def eval_nat_numeral)

text \<open>
  Claim C1 as stated fails: with \<open>maxRetries = 3\<close>, \<open>retryDelay = 1000\<close> and a work
  function that fails three times, the helper waits 1000 ms and again 1000 ms. The second
  wait is neither \<open>1000 * 2^1\<close> (attempts counted from 0) nor \<open>1000 * 2^2\<close> (attempts
  counted from 1, as the loop does).
\<close>

theorem retry_exponential_backoff_counterexample:
  "waits (added (start 0) (snd (retry (remote (Work ''w'') (flaky 3 ())) 3 1000 (start 0)))) =
     [1000, 1000]
   \<and> waits (added (start 0) (snd (retry (remote (Work ''w'') (flaky 3 ())) 3 1000 (start 0)))) ! 1
       \<noteq> 1000 * 2 ^ 1
   \<and> waits (added (start 0) (snd (retry (remote (Work ''w'') (flaky 3 ())) 3 1000 (start 0)))) ! 1
       \<noteq> 1000 * 2 ^ 2"
  by (simp add: retry_def retry_from.simps remote_def flaky_def start_def delay_def added_def)

text \<open>
  Claim C2. A work function whose first \<open>k\<close> invocations fail and whose next one returns
  \<open>v\<close>, retried with \<open>maxRetries > k\<close>: the helper returns \<open>v\<close> after exactly
  \<open>k + 1\<close> invocations. A work function that fails on each of its first \<open>n\<close>
  invocations, retried with \<open>maxRetries = n\<close>: the helper invokes it exactly \<open>n\<close>
  times and throws the error of the last invocation unchanged (for \<open>n = 0\<close> there is no
  invocation and the \<^verbatim>\<open>undefined\<close> initial \<open>lastError\<close> is thrown).
\<close>

theorem retry_invocations:
  "((\<forall>i<k. isl (outcome f i (world s))) \<and> outcome f k (world s) = Inr v \<and> int k < maxRetries \<longrightarrow>
      fst (retry (remote c f) maxRetries retryDelay s) = Inr v
      \<and> calls (added s (snd (retry (remote c f) maxRetries retryDelay s))) = replicate (k + 1) c
      \<and> world (snd (retry (remote c f) maxRetries retryDelay s)) = world_after f (k + 1) (world s))
   \<and> ((\<forall>i<n. isl (outcome g i (world s))) \<longrightarrow>
      calls (added s (snd (retry (remote c g) (int n) retryDelay s))) = replicate n c
      \<and> world (snd (retry (remote c g) (int n) retryDelay s)) = world_after g n (world s)
      \<and> (\<forall>err. 0 < n \<and> outcome g (n - 1) (world s) = Inl err \<longrightarrow>
             fst (retry (remote c g) (int n) retryDelay s) = Inl err)
      \<and> (n = 0 \<longrightarrow> fst (retry (remote c g) (int n) retryDelay s) = Inl JsUndefined))"
proof (intro conjI impI)
  assume h: "(\<forall>i<k. isl (outcome f i (world s))) \<and> outcome f k (world s) = Inr v \<and> int k < maxRetries"
  then have r: "retry (remote c f) maxRetries retryDelay s =
     (Inr v, s\<lparr>world := world_after f (Suc k) (world s),
                 clock := clock s + int k * max 0 retryDelay,
                 timeline := timeline s @ concat (replicate k [Call c, Sleep retryDelay]) @ [Call c]\<rparr>)"
    unfolding retry_def by (intro retry_from_succeeds) simp_all
  show "fst (retry (remote c f) maxRetries retryDelay s) = Inr v"
    by (simp add: r)
  show "calls (added s (snd (retry (remote c f) maxRetries retryDelay s))) = replicate (k + 1) c"
    by (simp add: r added_def replicate_append_same)
  show "world (snd (retry (remote c f) maxRetries retryDelay s)) = world_after f (k + 1) (world s)"
    by (simp add: r del: world_after.simps)
next
  assume h: "\<forall>i<n. isl (outcome g i (world s))"
  have r: "retry (remote c g) (int n) retryDelay s =
     (if n = 0 then (Inl JsUndefined, s)
      else (Inl (projl (outcome g (n - 1) (world s))),
            s\<lparr>world := world_after g n (world s),
               clock := clock s + int (n - 1) * max 0 retryDelay,
               timeline := timeline s @ concat (replicate (n - 1) [Call c, Sleep retryDelay]) @ [Call c]\<rparr>))"
  proof (cases n)
    case 0
    then show ?thesis by (simp add: retry_def retry_from.simps)
  next
    case (Suc j)
    then have "isl (outcome g j (world s))" using h by simp
    then have "outcome g j (world s) = Inl (projl (outcome g j (world s)))" by simp
    then have "retry_from 1 JsUndefined (remote c g) (int n) retryDelay s =
        (Inl (projl (outcome g j (world s))), s\<lparr>world := world_after g (Suc j) (world s),
                     clock := clock s + int j * max 0 retryDelay,
                     timeline := timeline s @ concat (replicate j [Call c, Sleep retryDelay]) @ [Call c]\<rparr>)"
      using h Suc by (intro retry_from_exhausted) simp_all
    then show ?thesis using Suc by (simp add: retry_def)
  qed
  show "calls (added s (snd (retry (remote c g) (int n) retryDelay s))) = replicate n c"
    unfolding r by (cases n) (simp_all add: added_def replicate_append_same)
  show "world (snd (retry (remote c g) (int n) retryDelay s)) = world_after g n (world s)"
    by (simp add: r)
  show "\<forall>err. 0 < n \<and> outcome g (n - 1) (world s) = Inl err \<longrightarrow>
             fst (retry (remote c g) (int n) retryDelay s) = Inl err"
    by (simp add: r)
  assume "n = 0"
  then show "fst (retry (remote c g) (int n) retryDelay s) = Inl JsUndefined"
    unfolding r by simp
qed

theorem retry_invocations_witness:
  "fst (retry (remote (Work ''w'') (flaky 2 True)) 3 1000 (start 0)) = Inr True
   \<and> calls (added (start 0) (snd (retry (remote (Work ''w'') (flaky 2 True)) 3 1000 (start 0)))) =
       [Work ''w'', Work ''w'', Work ''w'']
   \<and> world (snd (retry (remote (Work ''w'') (flaky 2 True)) 3 1000 (start 0))) = 3
   \<and> calls (added (start 0) (snd (retry (remote (Work ''w'') (flaky 5 True)) 3 1000 (start 0)))) =
       [Work ''w'', Work ''w'', Work ''w'']
   \<and> fst (retry (remote (Work ''w'') (flaky 5 True)) 3 1000 (start 0)) =
       Inl (Exception PlainError ''failure II'' None)"
  using retry_invocations [of 2 "flaky 2 True" "start 0" True 3 "Work ''w''" 1000 3 "flaky 5 True"]
  by (simp add: outcome_flaky flaky_def start_def eval_nat_numeral)

section \<open>Properties of the circuit breaker\<close>

lemma recordFailures_snoc:
  "recordFailures cfg (ts @ [t]) b = recordFailure cfg t (recordFailures cfg ts b)"
  by (simp add: recordFailures_def)

lemma recordFailures_Nil [simp]: "recordFailures cfg [] b = b"
  by (simp add: recordFailures_def)

lemma failures_recordFailures:
  "failures (recordFailures cfg ts b) = failures b + int (length ts)"
  by (induction ts rule: rev_induct)
     (simp_all add: recordFailures_snoc recordFailure_def Let_def)

lemma lastFailure_recordFailures:
  "ts \<noteq> [] \<Longrightarrow> lastFailure (recordFailures cfg ts b) = last ts"
  by (cases ts rule: rev_cases)
     (simp_all add: recordFailures_snoc recordFailure_def Let_def)

lemma isOpen_recordFailures:
  "isOpen (recordFailures cfg ts b) =
     (isOpen b \<or> (ts \<noteq> [] \<and> failures b + int (length ts) > CIRCUIT_BREAKER_THRESHOLD cfg))"
proof (induction ts rule: rev_induct)
  case Nil
  then show ?case by simp
next
  case (snoc t ts)
  then show ?case
    by (auto simp: recordFailures_snoc recordFailure_def Let_def failures_recordFailures)
qed

lemma checks_while_open:
  assumes "isOpen b" and "\<forall>now\<in>set nows. now - lastFailure b \<le> CIRCUIT_BREAKER_RESET_TIME cfg"
  shows "checks cfg nows b = (replicate (length nows) True, b)"
  using assms by (induction nows) (simp_all add: isCircuitOpen_def)

text \<open>
  Claim C5. Start from a breaker that has just been reset and call \<^verbatim>\<open>recordFailure()\<close>
  exactly \<open>threshold + 1\<close> times (at the clock readings \<open>ts\<close>, for a threshold that is
  not negative). Then \<^verbatim>\<open>isCircuitOpen()\<close> answers true, and leaves the breaker as it is,
  at every check made while no more than \<open>CIRCUIT_BREAKER_RESET_TIME\<close> has passed since the
  last recorded failure; any run of such checks answers true throughout. The first check
  made later than that answers false and leaves the failure counter at zero and the breaker
  closed: the transition happens in the check itself. With \<open>threshold\<close> failures or fewer
  the breaker still answers false.
\<close>

theorem circuit_breaker_opens_and_recovers:
  assumes "0 \<le> CIRCUIT_BREAKER_THRESHOLD cfg"
    and "int (length ts) = CIRCUIT_BREAKER_THRESHOLD cfg + 1"
  shows
    "(now - last ts \<le> CIRCUIT_BREAKER_RESET_TIME cfg \<longrightarrow>
        isCircuitOpen cfg now (recordFailures cfg ts (reset b0)) =
          (True, recordFailures cfg ts (reset b0)))
     \<and> ((\<forall>t\<in>set nows. t - last ts \<le> CIRCUIT_BREAKER_RESET_TIME cfg) \<longrightarrow>
        checks cfg nows (recordFailures cfg ts (reset b0)) =
          (replicate (length nows) True, recordFailures cfg ts (reset b0)))
     \<and> (later - last ts > CIRCUIT_BREAKER_RESET_TIME cfg \<longrightarrow>
        fst (isCircuitOpen cfg later (recordFailures cfg ts (reset b0))) = False
        \<and> failures (snd (isCircuitOpen cfg later (recordFailures cfg ts (reset b0)))) = 0
        \<and> isOpen (snd (isCircuitOpen cfg later (recordFailures cfg ts (reset b0)))) = False)
     \<and> (int (length fewer) \<le> CIRCUIT_BREAKER_THRESHOLD cfg \<longrightarrow>
        isCircuitOpen cfg now (recordFailures cfg fewer (reset b0)) =
          (False, recordFailures cfg fewer (reset b0)))"
proof -
  let ?b = "recordFailures cfg ts (reset b0)"
  have ne: "ts \<noteq> []" using assms by auto
  have opened: "isOpen ?b"
    using assms ne by (simp add: isOpen_recordFailures reset_def)
  have lf: "lastFailure ?b = last ts"
    using ne by (rule lastFailure_recordFailures)
  have closed: "\<not> isOpen (recordFailures cfg fewer (reset b0))"
    if "int (length fewer) \<le> CIRCUIT_BREAKER_THRESHOLD cfg"
    using that by (simp add: isOpen_recordFailures reset_def)
  show ?thesis
  proof (intro conjI impI)
    assume "now - last ts \<le> CIRCUIT_BREAKER_RESET_TIME cfg"
    then show "isCircuitOpen cfg now ?b = (True, ?b)"
      using opened lf by (simp add: isCircuitOpen_def)
  next
    assume "\<forall>t\<in>set nows. t - last ts \<le> CIRCUIT_BREAKER_RESET_TIME cfg"
    then show "checks cfg nows ?b = (replicate (length nows) True, ?b)"
      using opened lf by (intro checks_while_open) simp_all
  next
    assume late: "later - last ts > CIRCUIT_BREAKER_RESET_TIME cfg"
    then have r: "isCircuitOpen cfg later ?b = (False, reset ?b)"
      using opened lf by (simp add: isCircuitOpen_def)
    show "fst (isCircuitOpen cfg later ?b) = False" unfolding r by simp
    show "failures (snd (isCircuitOpen cfg later ?b)) = 0" unfolding r by (simp add: reset_def)
    show "isOpen (snd (isCircuitOpen cfg later ?b)) = False" unfolding r by (simp add: reset_def)
  next
    assume "int (length fewer) \<le> CIRCUIT_BREAKER_THRESHOLD cfg"
    then show "isCircuitOpen cfg now (recordFailures cfg fewer (reset b0)) =
          (False, recordFailures cfg fewer (reset b0))"
      using closed by (simp add: isCircuitOpen_def)
  qed
qed

theorem circuit_breaker_opens_and_recovers_witness:
  "isCircuitOpen default_config 300010
     (recordFailures default_config [0, 1, 2, 3, 4, 5, 6, 7, 8, 9, 10] (reset (new_CircuitBreaker 0))) =
     (True, \<lparr>failures = 11, lastFailure = 10, isOpen = True\<rparr>)
   \<and> checks default_config [20, 300010, 500]
     (recordFailures default_config [0, 1, 2, 3, 4, 5, 6, 7, 8, 9, 10] (reset (new_CircuitBreaker 0))) =
     ([True, True, True], \<lparr>failures = 11, lastFailure = 10, isOpen = True\<rparr>)
   \<and> isCircuitOpen default_config 300011
     (recordFailures default_config [0, 1, 2, 3, 4, 5, 6, 7, 8, 9, 10] (reset (new_CircuitBreaker 0))) =
     (False, \<lparr>failures = 0, lastFailure = 10, isOpen = False\<rparr>)
   \<and> isCircuitOpen default_config 300010
     (recordFailures default_config [0, 1, 2, 3, 4, 5, 6, 7, 8, 9] (reset (new_CircuitBreaker 0))) =
     (False, \<lparr>failures = 10, lastFailure = 9, isOpen = False\<rparr>)"
  using circuit_breaker_opens_and_recovers
    [where cfg = default_config and ts = "[0, 1, 2, 3, 4, 5, 6, 7, 8, 9, 10]" and now = 300010
       and nows = "[20, 300010, 500]" and later = 300011
       and fewer = "[0, 1, 2, 3, 4, 5, 6, 7, 8, 9]" and ?b0.0 = "new_CircuitBreaker 0"]
  by (simp add: default_config_def recordFailures_def recordFailure_def reset_def
      new_CircuitBreaker_def isCircuitOpen_def)

section \<open>Properties of the validators\<close>

lemma regex_test_one:
  "regex_test ((cls, 1, Some 1) # items) s =
     (case s of [] \<Rightarrow> False | c # cs \<Rightarrow> cls c \<and> regex_test items cs)"
  by (cases s) simp_all

lemma regex_test_last:
  "regex_test [(cls, lo, Some hi)] s = (lo \<le> length s \<and> length s \<le> hi \<and> list_all cls s)"
proof -
  have "regex_test [(cls, lo, Some hi)] s =
        (\<exists>n. lo \<le> n \<and> n \<le> min hi (length s) \<and> list_all cls (take n s) \<and> length s \<le> n)"
    unfolding regex_test.simps list_ex_iff option.case
    by (simp only: set_upt atLeastLessThan_iff less_Suc_eq_le drop_eq_Nil Bex_def conj_assoc)
  also have "\<dots> = (lo \<le> length s \<and> length s \<le> hi \<and> list_all cls s)"
  proof
    assume "\<exists>n. lo \<le> n \<and> n \<le> min hi (length s) \<and> list_all cls (take n s) \<and> length s \<le> n"
    then obtain n where n: "lo \<le> n" "n \<le> min hi (length s)" "list_all cls (take n s)"
      "length s \<le> n" by blast
    then have "n = length s" by simp
    with n show "lo \<le> length s \<and> length s \<le> hi \<and> list_all cls s" by simp
  next
    assume "lo \<le> length s \<and> length s \<le> hi \<and> list_all cls s"
    then have "lo \<le> length s \<and> length s \<le> min hi (length s)
       \<and> list_all cls (take (length s) s) \<and> length s \<le> length s" by simp
    then show "\<exists>n. lo \<le> n \<and> n \<le> min hi (length s) \<and> list_all cls (take n s) \<and> length s \<le> n"
      by blast
  qed
  finally show ?thesis .
qed

lemma regex_test_classes:
  assumes "regex_test items s" and "\<forall>item\<in>set items. \<forall>c. fst item c \<longrightarrow> P c"
  shows "list_all P s"
  using assms
proof (induction items arbitrary: s)
  case Nil
  then show ?case by simp
next
  case (Cons item items)
  obtain cls lo hi where item: "item = (cls, lo, hi)" by (cases item)
  from Cons.prems(1) obtain n where n: "list_all cls (take n s)" "regex_test items (drop n s)"
    unfolding item by (auto simp: list_ex_iff)
  have "list_all P (take n s)"
    using n(1) Cons.prems(2) item by (auto simp: list_all_iff)
  moreover have "list_all P (drop n s)"
    using Cons.IH[OF n(2)] Cons.prems(2) by simp
  ultimately show ?case by (metis append_take_drop_id list_all_append)
qed

lemma isValidPhone_iff:
  "isValidPhone p =
     (\<exists>d ds. p = CHR ''+'' # d # ds \<and> oneToNine d \<and> 1 \<le> length ds \<and> length ds \<le> 14
              \<and> list_all isDigit ds)"
  unfolding isValidPhone_def phoneRegex_def regex_test_one regex_test_last
  by (auto split: list.splits)

lemma oneToNine_isDigit: "oneToNine c \<Longrightarrow> isDigit c"
  by (auto simp: oneToNine_def isDigit_def)

lemma isDigit_not_space: "isDigit c \<Longrightarrow> \<not> isWhiteSpace c"
  by (auto simp: isWhiteSpace_def isDigit_def)

lemma trim_no_space:
  assumes "list_all (\<lambda>c. \<not> isWhiteSpace c) s"
  shows "trim s = s"
proof (cases s rule: rev_cases)
  case Nil
  then show ?thesis by (simp add: trim_def)
next
  case (snoc xs x)
  then have x: "\<not> isWhiteSpace x" using assms by simp
  have "dropWhile isWhiteSpace s = s"
    using assms by (cases s) simp_all
  then show ?thesis using snoc x by (simp add: trim_def)
qed

lemma isValidPhone_no_space:
  assumes "isValidPhone p"
  shows "list_all (\<lambda>c. \<not> isWhiteSpace c) p"
proof -
  from assms obtain d ds where p: "p = CHR ''+'' # d # ds" "oneToNine d" "list_all isDigit ds"
    unfolding isValidPhone_iff by blast
  have "\<not> isWhiteSpace CHR ''+''" by (simp add: isWhiteSpace_def)
  moreover have "\<not> isWhiteSpace d"
    using p(2) by (intro isDigit_not_space oneToNine_isDigit)
  moreover have "list_all (\<lambda>c. \<not> isWhiteSpace c) ds"
    using p(3) by (induction ds) (simp_all add: isDigit_not_space)
  ultimately show ?thesis using p(1) by simp
qed

lemma isValidEmail_no_space:
  assumes "isValidEmail e"
  shows "list_all (\<lambda>c. \<not> isWhiteSpace c) e"
  using assms unfolding isValidEmail_def
  by (rule regex_test_classes) (auto simp: emailRegex_def notSpaceNorAt_def isWhiteSpace_def)

lemma isValidEmail_nonempty: "isValidEmail e \<Longrightarrow> e \<noteq> []"
  by (auto simp: isValidEmail_def emailRegex_def)

lemma of_char_toLowerChar:
  "(of_char (toLowerChar c) :: nat) =
     (if (65 \<le> (of_char c :: nat) \<and> (of_char c :: nat) \<le> 90)
         \<or> (192 \<le> (of_char c :: nat) \<and> (of_char c :: nat) \<le> 222 \<and> (of_char c :: nat) \<noteq> 215)
      then of_char c + 32 else of_char c)"
  by (auto simp: toLowerChar_def Let_def)

lemma isWhiteSpace_code: "isWhiteSpace c = ((of_char c :: nat) \<in> {9, 10, 11, 12, 13, 32, 160})"
proof -
  have "isWhiteSpace c = (c \<in> char_of ` {9, 10, 11, 12, 13, 32, 160 :: nat})"
    by (simp add: isWhiteSpace_def char_of_def bit_Suc_0_iff)
  also have "\<dots> = ((of_char c :: nat) \<in> {9, 10, 11, 12, 13, 32, 160})"
  proof
    assume "c \<in> char_of ` {9, 10, 11, 12, 13, 32, 160 :: nat}"
    then show "(of_char c :: nat) \<in> {9, 10, 11, 12, 13, 32, 160}" by auto
  next
    assume "(of_char c :: nat) \<in> {9, 10, 11, 12, 13, 32, 160}"
    then have "char_of (of_char c :: nat) \<in> char_of ` {9, 10, 11, 12, 13, 32, 160 :: nat}"
      by (rule imageI)
    then show "c \<in> char_of ` {9, 10, 11, 12, 13, 32, 160 :: nat}" by simp
  qed
  finally show ?thesis .
qed

lemma toLowerChar_not_space: "\<not> isWhiteSpace c \<Longrightarrow> \<not> isWhiteSpace (toLowerChar c)"
  unfolding isWhiteSpace_code of_char_toLowerChar by auto

lemma toLowerCase_no_space:
  "list_all (\<lambda>c. \<not> isWhiteSpace c) s \<Longrightarrow> list_all (\<lambda>c. \<not> isWhiteSpace c) (toLowerCase s)"
  by (induction s) (simp_all add: toLowerCase_def toLowerChar_not_space)

lemma normalised_email:
  "isValidEmail e \<Longrightarrow> trim (toLowerCase e) = toLowerCase e \<and> toLowerCase e \<noteq> []"
  using isValidEmail_no_space[of e] isValidEmail_nonempty[of e]
  by (simp add: trim_no_space toLowerCase_no_space) (simp add: toLowerCase_def)

lemma normalised_phone: "isValidPhone p \<Longrightarrow> trim p = p \<and> p \<noteq> []"
  using isValidPhone_no_space[of p] by (auto simp: trim_no_space isValidPhone_iff)


lemma phone_format_message:
  assumes "q \<noteq> []" and "\<not> isValidPhone q" and "\<not> truthy e \<or> isValidEmail (text_of e)"
  shows "validateRequest \<lparr>email = e, phone = Some q\<rparr> =
     Respond (Response 400 (ErrorJson (error_only
       ''Invalid phone format. Use international format (e.g. +5511999999999)'')))"
  using assms by (auto simp: validateRequest_def)

text \<open>
  Claim C3, as amended. \<^verbatim>\<open>isValidPhone\<close> accepts exactly the strings made of \<open>+\<close>, one
  digit from 1 to 9, and 1 to 14 further digits: a leading zero after the \<open>+\<close> is refused
  although the string is a \<open>+\<close> followed by 2 to 15 digits. A request with such a phone
  and no email passes validation with the phone unchanged. Every string that lacks the
  \<open>+\<close>, has a character other than a digit after it, or is shorter than 3 or longer than
  16 characters fails \<^verbatim>\<open>isValidPhone\<close>, and every request whose phone is present (not
  empty) and fails it is answered with status 400, with the phone message when the email is
  absent or valid.
\<close>

theorem phone_validation:
  "(isValidPhone p \<longleftrightarrow>
      (\<exists>d ds. p = CHR ''+'' # d # ds \<and> oneToNine d \<and> 1 \<le> length ds \<and> length ds \<le> 14
               \<and> list_all isDigit ds))
   \<and> (isValidPhone p \<and> \<not> truthy e \<longrightarrow>
        validateRequest \<lparr>email = e, phone = Some p\<rparr> = Next \<lparr>email = e, phone = Some p\<rparr>)
   \<and> (q = [] \<or> hd q \<noteq> CHR ''+'' \<or> \<not> list_all isDigit (tl q) \<or> length q < 3 \<or> 16 < length q
        \<longrightarrow> \<not> isValidPhone q)
   \<and> (q \<noteq> [] \<and> \<not> isValidPhone q \<longrightarrow>
        (\<exists>msg. validateRequest \<lparr>email = e', phone = Some q\<rparr> =
                 Respond (Response 400 (ErrorJson (error_only msg)))))
   \<and> (q \<noteq> [] \<and> \<not> isValidPhone q \<and> (\<not> truthy e' \<or> isValidEmail (text_of e')) \<longrightarrow>
        validateRequest \<lparr>email = e', phone = Some q\<rparr> =
          Respond (Response 400 (ErrorJson (error_only
            ''Invalid phone format. Use international format (e.g. +5511999999999)''))))"
proof (intro conjI impI)
  show "isValidPhone p \<longleftrightarrow>
      (\<exists>d ds. p = CHR ''+'' # d # ds \<and> oneToNine d \<and> 1 \<le> length ds \<and> length ds \<le> 14
               \<and> list_all isDigit ds)"
    by (rule isValidPhone_iff)
next
  assume h: "isValidPhone p \<and> \<not> truthy e"
  then have "trim p = p" and "p \<noteq> []" using normalised_phone by blast+
  then show "validateRequest \<lparr>email = e, phone = Some p\<rparr> = Next \<lparr>email = e, phone = Some p\<rparr>"
    using h by (simp add: validateRequest_def)
next
  assume h: "q = [] \<or> hd q \<noteq> CHR ''+'' \<or> \<not> list_all isDigit (tl q) \<or> length q < 3 \<or> 16 < length q"
  show "\<not> isValidPhone q"
  proof
    assume "isValidPhone q"
    then obtain d ds where q: "q = CHR ''+'' # d # ds" "oneToNine d" "1 \<le> length ds"
      "length ds \<le> 14" "list_all isDigit ds"
      unfolding isValidPhone_iff by blast
    then have "isDigit d" by (simp add: oneToNine_isDigit)
    with q h show False by auto
  qed
next
  assume h: "q \<noteq> [] \<and> \<not> isValidPhone q"
  then show "\<exists>msg. validateRequest \<lparr>email = e', phone = Some q\<rparr> =
                 Respond (Response 400 (ErrorJson (error_only msg)))"
    by (auto simp: validateRequest_def)
next
  assume "q \<noteq> [] \<and> \<not> isValidPhone q \<and> (\<not> truthy e' \<or> isValidEmail (text_of e'))"
  then show "validateRequest \<lparr>email = e', phone = Some q\<rparr> =
          Respond (Response 400 (ErrorJson (error_only
            ''Invalid phone format. Use international format (e.g. +5511999999999)'')))"
    by (intro phone_format_message) simp_all
qed

theorem phone_validation_witness:
  "isValidPhone ''+5511999999999''
   \<and> validateRequest \<lparr>email = None, phone = Some ''+5511999999999''\<rparr> =
       Next \<lparr>email = None, phone = Some ''+5511999999999''\<rparr>
   \<and> \<not> isValidPhone ''12345''
   \<and> validateRequest \<lparr>email = None, phone = Some ''12345''\<rparr> =
       Respond (Response 400 (ErrorJson (error_only
         ''Invalid phone format. Use international format (e.g. +5511999999999)'')))"
proof -
  have ok: "isValidPhone ''+5511999999999''"
    by (simp add: isValidPhone_iff oneToNine_def isDigit_def)
  have bad: "\<not> isValidPhone ''12345''"
    by (simp add: isValidPhone_iff)
  show ?thesis
    using phone_validation [of "''+5511999999999''" None "''12345''" None] ok bad
    by simp
qed

text \<open>
  Claim C3 as stated fails: \<open>+0123456789\<close> is a \<open>+\<close> followed by ten digits, and
  \<^verbatim>\<open>isValidPhone\<close> refuses it, so the request is answered with status 400.
\<close>

theorem phone_leading_zero_counterexample:
  "hd ''+0123456789'' = CHR ''+'' \<and> list_all isDigit (tl ''+0123456789'')
   \<and> length (tl ''+0123456789'') = 10
   \<and> \<not> isValidPhone ''+0123456789''
   \<and> validateRequest \<lparr>email = None, phone = Some ''+0123456789''\<rparr> =
       Respond (Response 400 (ErrorJson (error_only
         ''Invalid phone format. Use international format (e.g. +5511999999999)'')))"
proof -
  have bad: "\<not> isValidPhone ''+0123456789''"
    by (simp add: isValidPhone_iff oneToNine_def)
  then show ?thesis
    by (simp add: validateRequest_def isDigit_def)
qed

text \<open>
  The \<^verbatim>\<open>trim()\<close> calls of \<^verbatim>\<open>validateRequest\<close> never remove anything: a value that
  reaches them has passed a regular expression that allows no white space.
\<close>

lemma validateRequest_Next:
  assumes "validateRequest b = Next b'"
  shows "email b' = (if truthy (email b) then Some (toLowerCase (text_of (email b))) else email b)"
    and "phone b' = phone b"
    and "truthy (email b) \<or> truthy (phone b)"
    and "truthy (email b) \<longrightarrow> isValidEmail (text_of (email b))"
    and "truthy (phone b) \<longrightarrow> isValidPhone (text_of (phone b))"
  using assms normalised_email[of "text_of (email b)"] normalised_phone[of "text_of (phone b)"]
  by (cases "phone b"; cases "email b"; auto simp: validateRequest_def split: if_splits)+

section \<open>Properties of the mint route\<close>

lemma mintAttempt_result:
  assumes "mintAttempt cl ident identType s = (Inr r, s')"
  shows "mintIdentifier r = ident \<and> identifierType r = identType \<and> status r = ''success''
         \<and> walletAddress r \<noteq> []"
  using assms
  by (auto simp: mintAttempt_def andThen_def resolved_def rejected_def
      split: prod.splits sum.splits if_splits)

lemma performMint_from_result:
  assumes "performMint_from attempt lastError cl cfg ident identType s = (Inr r, s')"
  shows "mintIdentifier r = ident \<and> identifierType r = identType \<and> status r = ''success''
         \<and> walletAddress r \<noteq> []"
  using assms
proof (induction attempt lastError cl cfg ident identType s rule: performMint_from.induct)
  case (1 attempt lastError cl cfg ident identType s)
  show ?case
  proof (cases "attempt < SERVER_MAX_RETRIES cfg")
    case False
    then show ?thesis using "1.prems" by (subst (asm) performMint_from.simps) simp
  next
    case True
    obtain x s1 where att: "mintAttempt cl ident identType s = (x, s1)"
      by (cases "mintAttempt cl ident identType s")
    show ?thesis
    proof (cases x)
      case (Inr res)
      then have "res = r" using "1.prems" True att
        by (subst (asm) performMint_from.simps) simp
      then show ?thesis using mintAttempt_result att Inr by blast
    next
      case (Inl err)
      then show ?thesis
        using "1.prems" True att "1.IH"[OF True att[symmetric] Inl]
        by (subst (asm) performMint_from.simps) simp
    qed
  qed
qed

lemma performMint_email_first:
  assumes "truthy (email b)"
  shows "performMint cl cfg b = performMint_from 0 None cl cfg (text_of (email b)) EMAIL"
  using assms by (simp add: performMint_def or_else_def)

lemma validated_identifier_present:
  assumes "validateRequest b = Next b1"
  shows "truthy (or_else (email b1) (phone b1))"
proof (cases "truthy (email b)")
  case True
  then have "isValidEmail (text_of (email b))"
    and "email b1 = Some (toLowerCase (text_of (email b)))"
    using validateRequest_Next[OF assms] by auto
  then show ?thesis using normalised_email by (simp add: or_else_def)
next
  case False
  then have "truthy (phone b1)" and "email b1 = email b"
    using validateRequest_Next[OF assms] by auto
  then show ?thesis using False by (simp add: or_else_def)
qed

lemma cache_get_hit:
  assumes "c k = Some (r, expires)" and "expires = 0 \<or> now \<le> expires"
  shows "cache_get now k c = (Some r, c)"
  using assms by (auto simp: cache_get_def)

lemma cache_set_then_get:
  assumes "0 \<le> CACHE_TTL cfg" and "now \<le> stored + CACHE_TTL cfg * 1000"
  shows "cache_get now k (cache_set cfg stored k r c) = (Some r, cache_set cfg stored k r c)"
  using assms by (auto simp: cache_get_def cache_set_def)


text \<open>
  Claim C6. A request that passes the rate limiter and the validation, and for whose
  identifier the cache holds a result that has not expired, is answered with status 200
  and exactly the stored result. The state of the server after the answer is the state
  before it: nothing is added to the timeline of remote calls and the world is untouched
  (whatever the collaborators \<open>cl\<close> are), and the breaker is unchanged. The answer is the
  same whatever the breaker holds (\<open>cb\<close> is arbitrary), so the breaker is not consulted.
  The model compares values; no code path changes a stored result, so sharing the
  reference cannot be told from copying.
\<close>

theorem cache_hit_short_circuits:
  assumes "validateRequest b = Next b1"
    and "cache st (''mint:'' @ text_of (or_else (email b1) (phone b1))) = Some (r, expires)"
    and "expires = 0 \<or> clock (proc st) \<le> expires"
  shows "postMint cl cfg True b st = (Response 200 (ResultJson r), st)
     \<and> postMint cl cfg True b (st\<lparr>circuitBreaker := cb\<rparr>) =
         (Response 200 (ResultJson r), st\<lparr>circuitBreaker := cb\<rparr>)"
proof -
  have present: "truthy (or_else (email b1) (phone b1))"
    using assms(1) by (rule validated_identifier_present)
  have hit: "cache_get (clock (proc st)) (''mint:'' @ text_of (or_else (email b1) (phone b1)))
               (cache st) = (Some r, cache st)"
    using assms(2,3) by (rule cache_get_hit)
  have "cacheMiddleware b1 (st\<lparr>circuitBreaker := x\<rparr>) =
          (Respond (Response 200 (ResultJson r)), st\<lparr>circuitBreaker := x\<rparr>)" for x
    using present hit by (simp add: cacheMiddleware_def Let_def)
  then have "postMint cl cfg True b (st\<lparr>circuitBreaker := x\<rparr>) =
          (Response 200 (ResultJson r), st\<lparr>circuitBreaker := x\<rparr>)" for x
    using assms(1) by (simp add: postMint_def)
  from this[of cb] this[of "circuitBreaker st"] show ?thesis by simp
qed

theorem cache_hit_short_circuits_witness:
  "postMint unreachable_clients default_config True \<lparr>email = Some ''a@b.co'', phone = None\<rparr>
     (server_at 1000 [''mint:a@b.co'' \<mapsto> (example_result, 3601000)]
        \<lparr>failures = 11, lastFailure = 900, isOpen = True\<rparr>) =
   (Response 200 (ResultJson example_result),
    server_at 1000 [''mint:a@b.co'' \<mapsto> (example_result, 3601000)]
        \<lparr>failures = 11, lastFailure = 900, isOpen = True\<rparr>)"
proof -
  have ok: "isValidEmail ''a@b.co''"
    by (simp add: isValidEmail_def emailRegex_def notSpaceNorAt_def isWhiteSpace_def upt_rec)
  have low: "toLowerCase ''a@b.co'' = ''a@b.co''"
    by (simp add: toLowerCase_def toLowerChar_def)
  have v: "validateRequest \<lparr>email = Some ''a@b.co'', phone = None\<rparr> =
           Next \<lparr>email = Some ''a@b.co'', phone = None\<rparr>"
    using ok normalised_email[OF ok] low by (simp add: validateRequest_def)
  show ?thesis
    using cache_hit_short_circuits [OF v, of
        "server_at 1000 [''mint:a@b.co'' \<mapsto> (example_result, 3601000)]
           \<lparr>failures = 11, lastFailure = 900, isOpen = True\<rparr>"
        example_result 3601000 unreachable_clients default_config
        "\<lparr>failures = 11, lastFailure = 900, isOpen = True\<rparr>"]
    by (simp add: server_at_def or_else_def)
qed

text \<open>
  Claim C7. The breaker is open when \<^verbatim>\<open>isCircuitOpen()\<close> answers true: the flag is set
  and no more than \<open>CIRCUIT_BREAKER_RESET_TIME\<close> has passed since the last recorded
  failure. A request that then passes the rate limiter and the validation and misses the
  cache is answered with status 503 and \<open>retryAfter\<close> equal to the reset time divided by
  1000; the process (world, clock, timeline of remote calls) and the breaker are left as
  they were, whatever the collaborators \<open>cl\<close> are. After 11 recorded failures at the
  default threshold of 10 the flag is set, as the witness shows.
\<close>

theorem open_breaker_rejects:
  assumes "validateRequest b = Next b1"
    and "cache_get (clock (proc st)) (''mint:'' @ text_of (or_else (email b1) (phone b1)))
           (cache st) = (None, c)"
    and "isOpen (circuitBreaker st)"
    and "clock (proc st) - lastFailure (circuitBreaker st) \<le> CIRCUIT_BREAKER_RESET_TIME cfg"
  shows "postMint cl cfg True b st =
     (Response 503 (ErrorJson
        \<lparr>error = ''Service temporarily unavailable'',
         retryAfter = Some (of_int (CIRCUIT_BREAKER_RESET_TIME cfg) / 1000),
         details = None\<rparr>),
      st\<lparr>cache := c\<rparr>)"
proof -
  have present: "truthy (or_else (email b1) (phone b1))"
    using assms(1) by (rule validated_identifier_present)
  have miss: "cacheMiddleware b1 st = (Next (), st\<lparr>cache := c\<rparr>)"
    using present assms(2) by (simp add: cacheMiddleware_def Let_def)
  have "isCircuitOpen cfg (clock (proc st)) (circuitBreaker st) = (True, circuitBreaker st)"
    using assms(3,4) by (simp add: isCircuitOpen_def)
  then have "circuitBreakerMiddleware cfg (st\<lparr>cache := c\<rparr>) =
     (Respond (Response 503 (ErrorJson
        \<lparr>error = ''Service temporarily unavailable'',
         retryAfter = Some (of_int (CIRCUIT_BREAKER_RESET_TIME cfg) / 1000),
         details = None\<rparr>)), st\<lparr>cache := c\<rparr>)"
    by (simp add: circuitBreakerMiddleware_def)
  then show ?thesis using assms(1) miss by (simp add: postMint_def)
qed

theorem open_breaker_rejects_witness:
  "postMint healthy_clients default_config True \<lparr>email = Some ''a@b.co'', phone = None\<rparr>
     (server_at 20 Map.empty
        (recordFailures default_config [0, 1, 2, 3, 4, 5, 6, 7, 8, 9, 10]
           (reset (new_CircuitBreaker 0)))) =
   (Response 503 (ErrorJson
      \<lparr>error = ''Service temporarily unavailable'', retryAfter = Some 300, details = None\<rparr>),
    server_at 20 Map.empty \<lparr>failures = 11, lastFailure = 10, isOpen = True\<rparr>)"
proof -
  have ok: "isValidEmail ''a@b.co''"
    by (simp add: isValidEmail_def emailRegex_def notSpaceNorAt_def isWhiteSpace_def upt_rec)
  have low: "toLowerCase ''a@b.co'' = ''a@b.co''"
    by (simp add: toLowerCase_def toLowerChar_def)
  have v: "validateRequest \<lparr>email = Some ''a@b.co'', phone = None\<rparr> =
           Next \<lparr>email = Some ''a@b.co'', phone = None\<rparr>"
    using ok normalised_email[OF ok] low by (simp add: validateRequest_def)
  have rt: "CIRCUIT_BREAKER_RESET_TIME default_config = 300000"
    by (simp add: default_config_def)
  have cb: "recordFailures default_config [0, 1, 2, 3, 4, 5, 6, 7, 8, 9, 10]
              (reset (new_CircuitBreaker 0)) = \<lparr>failures = 11, lastFailure = 10, isOpen = True\<rparr>"
    by (simp add: recordFailures_def recordFailure_def reset_def new_CircuitBreaker_def
        default_config_def)
  show ?thesis
    using open_breaker_rejects [OF v, of
        "server_at 20 Map.empty \<lparr>failures = 11, lastFailure = 10, isOpen = True\<rparr>"
        Map.empty default_config healthy_clients]
    by (simp add: cb rt server_at_def or_else_def cache_get_def)
qed

text \<open>
  Claim C10. With an email and a phone both present, each field is validated on its own:
  a valid email with a phone that fails \<^verbatim>\<open>isValidPhone\<close> is answered with status 400 and
  the phone message, before the cache, the breaker or any collaborator is reached; an
  invalid email with a valid phone is answered with status 400 as well. When both pass,
  both normalised fields stay in the body, and only then does the email take precedence:
  \<^verbatim>\<open>performMint\<close> runs with the email as identifier and \<open>EMAIL\<close> as its kind, and every
  result it returns carries these two.
\<close>

theorem both_fields_validated:
  "(isValidEmail e \<and> p \<noteq> [] \<and> \<not> isValidPhone p \<longrightarrow>
      validateRequest \<lparr>email = Some e, phone = Some p\<rparr> =
        Respond (Response 400 (ErrorJson (error_only
          ''Invalid phone format. Use international format (e.g. +5511999999999)'')))
      \<and> postMint cl cfg True \<lparr>email = Some e, phone = Some p\<rparr> st =
        (Response 400 (ErrorJson (error_only
          ''Invalid phone format. Use international format (e.g. +5511999999999)'')), st))
   \<and> (e \<noteq> [] \<and> \<not> isValidEmail e \<and> isValidPhone p \<longrightarrow>
      validateRequest \<lparr>email = Some e, phone = Some p\<rparr> =
        Respond (Response 400 (ErrorJson (error_only ''Invalid email format''))))
   \<and> (isValidEmail e' \<and> isValidPhone p' \<longrightarrow>
      validateRequest \<lparr>email = Some e', phone = Some p'\<rparr> =
        Next \<lparr>email = Some (toLowerCase e'), phone = Some p'\<rparr>
      \<and> performMint cl cfg \<lparr>email = Some (toLowerCase e'), phone = Some p'\<rparr> =
          performMint_from 0 None cl cfg (toLowerCase e') EMAIL
      \<and> (performMint cl cfg \<lparr>email = Some (toLowerCase e'), phone = Some p'\<rparr> s = (Inr r, s')
          \<longrightarrow> mintIdentifier r = toLowerCase e' \<and> identifierType r = EMAIL))"
proof (intro conjI impI)
  assume h: "isValidEmail e \<and> p \<noteq> [] \<and> \<not> isValidPhone p"
  then have ne: "e \<noteq> []" using isValidEmail_nonempty by blast
  show v: "validateRequest \<lparr>email = Some e, phone = Some p\<rparr> =
        Respond (Response 400 (ErrorJson (error_only
          ''Invalid phone format. Use international format (e.g. +5511999999999)'')))"
    using h ne by (simp add: validateRequest_def)
  show "postMint cl cfg True \<lparr>email = Some e, phone = Some p\<rparr> st =
        (Response 400 (ErrorJson (error_only
          ''Invalid phone format. Use international format (e.g. +5511999999999)'')), st)"
    by (simp add: postMint_def v)
next
  assume "e \<noteq> [] \<and> \<not> isValidEmail e \<and> isValidPhone p"
  then show "validateRequest \<lparr>email = Some e, phone = Some p\<rparr> =
        Respond (Response 400 (ErrorJson (error_only ''Invalid email format'')))"
    by (simp add: validateRequest_def)
next
  assume h: "isValidEmail e' \<and> isValidPhone p'"
  then have e: "e' \<noteq> []" "trim (toLowerCase e') = toLowerCase e'" "toLowerCase e' \<noteq> []"
    and p: "p' \<noteq> []" "trim p' = p'"
    using normalised_email[of e'] normalised_phone[of p'] isValidEmail_nonempty[of e'] by auto
  show "validateRequest \<lparr>email = Some e', phone = Some p'\<rparr> =
        Next \<lparr>email = Some (toLowerCase e'), phone = Some p'\<rparr>"
    using h e p by (simp add: validateRequest_def)
  have pm: "performMint cl cfg \<lparr>email = Some (toLowerCase e'), phone = Some p'\<rparr> =
          performMint_from 0 None cl cfg (toLowerCase e') EMAIL"
    using e(3) by (simp add: performMint_email_first)
  then show "performMint cl cfg \<lparr>email = Some (toLowerCase e'), phone = Some p'\<rparr> =
          performMint_from 0 None cl cfg (toLowerCase e') EMAIL" .
  assume "performMint cl cfg \<lparr>email = Some (toLowerCase e'), phone = Some p'\<rparr> s = (Inr r, s')"
  then have "performMint_from 0 None cl cfg (toLowerCase e') EMAIL s = (Inr r, s')"
    by (simp add: pm)
  then show "mintIdentifier r = toLowerCase e'" and "identifierType r = EMAIL"
    using performMint_from_result by blast+
qed


lemma performMint_healthy:
  "performMint healthy_clients default_config
     \<lparr>email = Some ''a@b.co'', phone = Some ''+5511999999999''\<rparr> (start 0) =
   (Inr example_result,
    \<lparr>world = 4, clock = 0,
     timeline = [Call NewCapsule, Call (HasPregenWallet ''a@b.co'' EMAIL),
                 Call (Work ''createModularAccountAlchemyClient''),
                 Call (Work ''sendUserOperation'')]\<rparr>)"
  by (simp add: performMint_def or_else_def performMint_from.simps default_config_def
      mintAttempt_def healthy_clients_def andThen_def remote_def resolved_def start_def
      example_result_def encodeMintTo_def isAddress_def isHexDigit_def hexDigitValue_def)

theorem both_fields_validated_witness:
  "validateRequest \<lparr>email = Some ''a@b.co'', phone = Some ''12345''\<rparr> =
     Respond (Response 400 (ErrorJson (error_only
       ''Invalid phone format. Use international format (e.g. +5511999999999)'')))
   \<and> postMint healthy_clients default_config True
       \<lparr>email = Some ''a@b.co'', phone = Some ''12345''\<rparr>
       (server_at 0 Map.empty (new_CircuitBreaker 0)) =
     (Response 400 (ErrorJson (error_only
        ''Invalid phone format. Use international format (e.g. +5511999999999)'')),
      server_at 0 Map.empty (new_CircuitBreaker 0))
   \<and> validateRequest \<lparr>email = Some ''a@b.co'', phone = Some ''+5511999999999''\<rparr> =
     Next \<lparr>email = Some ''a@b.co'', phone = Some ''+5511999999999''\<rparr>
   \<and> mintIdentifier example_result = ''a@b.co'' \<and> identifierType example_result = EMAIL"
proof -
  have ok: "isValidEmail ''a@b.co''"
    by (simp add: isValidEmail_def emailRegex_def notSpaceNorAt_def isWhiteSpace_def upt_rec)
  have low: "toLowerCase ''a@b.co'' = ''a@b.co''"
    by (simp add: toLowerCase_def toLowerChar_def)
  have bad: "\<not> isValidPhone ''12345''"
    by (simp add: isValidPhone_iff)
  have good: "isValidPhone ''+5511999999999''"
    by (simp add: isValidPhone_iff oneToNine_def isDigit_def)
  show ?thesis
    using both_fields_validated [where e = "''a@b.co''" and p = "''12345''"
        and e' = "''a@b.co''" and p' = "''+5511999999999''"
        and cl = healthy_clients and cfg = default_config
        and st = "server_at 0 Map.empty (new_CircuitBreaker 0)"
        and s = "start 0" and r = example_result
        and s' = "\<lparr>world = 4, clock = 0,
     timeline = [Call NewCapsule, Call (HasPregenWallet ''a@b.co'' EMAIL),
                 Call (Work ''createModularAccountAlchemyClient''),
                 Call (Work ''sendUserOperation'')]\<rparr>"]
      ok low bad good performMint_healthy
    by simp
qed

section \<open>Properties of the signing adapter\<close>













lemma slice_last2_append2 [simp]: "slice_last2 (xs @ [x, y]) = [x, y]"
  by (simp add: slice_last2_def)








section \<open>Properties of wallet provisioning\<close>











section \<open>The first end-to-end scenario: an email with a trailing space\<close>

lemma email_with_space_rejected:
  assumes "e \<noteq> []" and "\<not> list_all (\<lambda>c. \<not> isWhiteSpace c) e"
  shows "validateRequest \<lparr>email = Some e, phone = p\<rparr> =
     Respond (Response 400 (ErrorJson (error_only ''Invalid email format'')))"
proof -
  have "\<not> isValidEmail e" using assms(2) isValidEmail_no_space by blast
  then show ?thesis using assms(1) by (simp add: validateRequest_def)
qed

text \<open>
  Claim C4, evaluated on the code. The body \<^verbatim>\<open>{email: "User@Example.com "}\<close>, with its
  trailing space, does not pass validation: \<^verbatim>\<open>isValidEmail\<close> is applied to the string
  as it was sent, the regular expression allows no white space, and the request is
  answered with status 400 and \<open>Invalid email format\<close> before the cache, the breaker or
  any collaborator is reached, so no identifier is normalised and nothing is minted. The
  same address without the space passes and is normalised to \<open>user@example.com\<close>: the
  \<^verbatim>\<open>trim()\<close> that follows the check is what would have removed the space.
\<close>

theorem trailing_space_email_rejected:
  "validateRequest \<lparr>email = Some ''User@Example.com '', phone = None\<rparr> =
     Respond (Response 400 (ErrorJson (error_only ''Invalid email format'')))
   \<and> postMint healthy_clients default_config True
       \<lparr>email = Some ''User@Example.com '', phone = None\<rparr>
       (server_at 0 Map.empty (new_CircuitBreaker 0)) =
     (Response 400 (ErrorJson (error_only ''Invalid email format'')),
      server_at 0 Map.empty (new_CircuitBreaker 0))
   \<and> validateRequest \<lparr>email = Some ''User@Example.com'', phone = None\<rparr> =
     Next \<lparr>email = Some ''user@example.com'', phone = None\<rparr>"
proof -
  have rejected: "validateRequest \<lparr>email = Some ''User@Example.com '', phone = None\<rparr> =
     Respond (Response 400 (ErrorJson (error_only ''Invalid email format'')))"
    by (rule email_with_space_rejected) (simp_all add: isWhiteSpace_def)
  have ok: "isValidEmail ''User@Example.com''"
    by (simp add: isValidEmail_def emailRegex_def notSpaceNorAt_def isWhiteSpace_def upt_rec)
  have low: "toLowerCase ''User@Example.com'' = ''user@example.com''"
    by (simp add: toLowerCase_def toLowerChar_def char_of_def bit_Suc_0_iff)
  have "trim (toLowerCase ''User@Example.com'') = ''user@example.com''"
    using normalised_email[OF ok] low by simp
  then have accepted: "validateRequest \<lparr>email = Some ''User@Example.com'', phone = None\<rparr> =
     Next \<lparr>email = Some ''user@example.com'', phone = None\<rparr>"
    using ok by (simp add: validateRequest_def)
  show ?thesis using rejected accepted by (simp add: postMint_def)
qed

end
